theory Spec2Isabelle
  imports Main "HOL-Library.Word"
begin

unbundle bit_operations_syntax

section \<open>Data model\<close>

text \<open>
  \<open>runtime/lib/stacktrace.cc\<close> captures the stack of the current thread as two parallel
  arrays: the code objects of the Dart frames and, for each, the offset of the frame's
  program counter in the code's payload. \<open>uword\<close> is the unsigned machine word; a 64-bit
  little-endian target is modelled, so \<open>kWordSize\<close> is 8.

  Offsets are words, and their subtraction wraps as in the source. Skip counts are signed
  in the source (\<open>int\<close>, \<open>intptr_t\<close>); they are only compared with 0 and decremented
  while positive, so they never wrap, and \<open>int\<close> models them. Lengths, indices and
  frame counts are bounded by the number of live frames and are natural numbers.
\<close>

type_synonym uword = "64 word"
type_synonym byte = "8 word"

definition kWordSize :: nat where
  "kWordSize = 8"

definition kDefaultStackAllocation :: nat where
  "kDefaultStackAllocation = 8"

record Code =
  code_id :: nat
  PayloadStart :: uword

datatype Object = Null | CodeObject Code

record StackFrame =
  IsDartFrame :: bool
  LookupDartCode :: Code
  pc :: uword

text \<open>A \<open>TypedData\<close> object is its payload, byte by byte.\<close>

type_synonym TypedData = "byte list"

record StackTrace =
  code_array :: "Object list"
  pc_offset_array :: TypedData

datatype error = AssertionFailed string

text \<open>
  The state of a thread that the captures read: its live frames, innermost first, and the
  nesting depth of its \<open>NoSafepointScope\<close>s. \<open>raw_copy_log\<close> is a ghost field: every
  \<open>memmove\<close> appends the nesting depth it ran at and the number of bytes it moved.
\<close>

text \<open>
  Modelled from the spec: the field \<open>async_stack_trace\<close> is the externally maintained chain
  of snapshots of suspended asynchronous continuations. No function of stacktrace.cc reads
  it.
\<close>

record Thread =
  frames :: "StackFrame list"
  no_safepoint_scope_depth :: nat
  raw_copy_log :: "(nat \<times> nat) list"
  async_stack_trace :: "StackTrace option"

text \<open>
  The process-wide configuration. stacktrace.cc reads \<open>FLAG_lazy_async_stacks\<close> and declares
  \<open>FLAG_show_invisible_frames\<close>. \<open>DEBUG\<close> says whether the \<open>ASSERT\<close> macro, which is not
  defined in stacktrace.cc, checks its condition: a failed check ends the capture with
  \<open>AssertionFailed\<close>; an unchecked one does nothing.
\<close>

text \<open>
  Modelled from the spec: \<open>FLAG_causal_async_stacks\<close> is the flag that enables causal
  cross-suspension chains. stacktrace.cc names it in a comment only and never reads it.
\<close>

record Flags =
  FLAG_lazy_async_stacks :: bool
  FLAG_show_invisible_frames :: bool
  FLAG_causal_async_stacks :: bool
  DEBUG :: bool

section \<open>Collaborators of stacktrace.cc\<close>

subsection \<open>Raw memory\<close>

text \<open>
  \<open>kWordSize\<close>, the typed-data and array classes, \<open>NoSafepointScope\<close> and \<open>memmove\<close> are
  declared outside stacktrace.cc. They are given their usual meaning on a memory of bytes:
  the bytes of a machine word, least significant first, and the way back.
\<close>

definition word_bytes :: "uword \<Rightarrow> byte list" where
  "word_bytes w = map (\<lambda>i. ucast (drop_bit (8 * i) w)) [0..<8]"

definition bytes_word :: "byte list \<Rightarrow> uword" where
  "bytes_word bs = foldr (\<lambda>b acc. ucast b OR push_bit 8 acc) bs 0"

text \<open>\<open>GrowableArray<uword>::data()\<close>: the memory that holds the elements of the array.\<close>

definition GrowableArray_data :: "uword list \<Rightarrow> byte list" where
  "GrowableArray_data xs = concat (map word_bytes xs)"

text \<open>
  Modelled from the spec: \<open>TypedData::New(kUintPtrCid, len)\<close> is the fixed-length raw
  binary buffer of \<open>len\<close> words, all zero when it is allocated.
\<close>

definition TypedData_New :: "nat \<Rightarrow> TypedData" where
  "TypedData_New len = replicate (len * kWordSize) 0"

text \<open>
  \<open>SetUintPtr\<close> and \<open>GetUintPtr\<close> take a byte offset. An access that is out of range is
  no write, and reads the bytes that are there.
\<close>

definition SetUintPtr :: "TypedData \<Rightarrow> nat \<Rightarrow> uword \<Rightarrow> TypedData" where
  "SetUintPtr td byte_offset v =
     (if byte_offset + kWordSize \<le> length td
      then take byte_offset td @ word_bytes v @ drop (byte_offset + kWordSize) td
      else td)"

definition GetUintPtr :: "TypedData \<Rightarrow> nat \<Rightarrow> uword" where
  "GetUintPtr td byte_offset = bytes_word (take kWordSize (drop byte_offset td))"

text \<open>
  Modelled from the spec: \<open>Array::New(len)\<close> is the fixed-length sequence of code
  references, \<open>len\<close> nulls when it is allocated; \<open>SetAt\<close> out of range is no write.
\<close>

definition Array_New :: "nat \<Rightarrow> Object list" where
  "Array_New len = replicate len Null"

definition SetAt :: "Object list \<Rightarrow> nat \<Rightarrow> Object \<Rightarrow> Object list" where
  "SetAt arr i v = arr[i := v]"

text \<open>
  Modelled from the spec: a growable intermediate buffer is the sequence of its elements.
  \<open>New\<close> is empty whatever the capacity asked for, \<open>Add\<close> appends, and
  \<open>Array::MakeFixedLength\<close> materialises the elements into fixed-length storage.
\<close>

definition GrowableObjectArray_New :: "nat \<Rightarrow> Object list" where
  "GrowableObjectArray_New capacity = []"

definition Add :: "'a list \<Rightarrow> 'a \<Rightarrow> 'a list" where
  "Add xs x = xs @ [x]"

definition MakeFixedLength :: "Object list \<Rightarrow> Object list" where
  "MakeFixedLength code_list = code_list"

definition StackTrace_New :: "Object list \<Rightarrow> TypedData \<Rightarrow> StackTrace" where
  "StackTrace_New code_arr pc_offset_arr =
     \<lparr>code_array = code_arr, pc_offset_array = pc_offset_arr\<rparr>"

text \<open>
  \<open>memmove(dst, src, n)\<close> on the current thread: the first \<open>n\<close> bytes of \<open>dst\<close> become those of
  \<open>src\<close>. The ghost log records the no-safepoint depth the copy ran at.
\<close>

definition memmove :: "Thread \<Rightarrow> byte list \<Rightarrow> byte list \<Rightarrow> nat \<Rightarrow> byte list \<times> Thread" where
  "memmove thr dst src n =
     (take n src @ drop n dst,
      thr\<lparr>raw_copy_log := raw_copy_log thr @ [(no_safepoint_scope_depth thr, n)]\<rparr>)"

text \<open>
  Modelled from the spec: \<open>NoSafepointScope\<close> is a scoped guard, acquired by its constructor
  and released by its destructor; the thread is inside a no-safepoint scope while the
  depth is positive.
\<close>

definition NoSafepointScope_enter :: "Thread \<Rightarrow> Thread" where
  "NoSafepointScope_enter thr =
     thr\<lparr>no_safepoint_scope_depth := no_safepoint_scope_depth thr + 1\<rparr>"

definition NoSafepointScope_exit :: "Thread \<Rightarrow> Thread" where
  "NoSafepointScope_exit thr =
     thr\<lparr>no_safepoint_scope_depth := no_safepoint_scope_depth thr - 1\<rparr>"

subsection \<open>The frame walker\<close>

text \<open>
  Modelled from the spec: \<open>StackFrameIterator\<close> (vm/stack_frame.h is not among the sources) is
  the Frame Walker, an iterator over the live frames of the thread from the innermost to the
  outermost. Its state is the list of the frames it has not returned yet; \<open>NextFrame\<close> returns
  the next one, or \<open>None\<close> for the source's \<open>NULL\<close>.
\<close>

type_synonym StackFrameIterator = "StackFrame list"

definition StackFrameIterator_new :: "Thread \<Rightarrow> StackFrameIterator" where
  "StackFrameIterator_new thr = frames thr"

definition NextFrame :: "StackFrameIterator \<Rightarrow> StackFrame option \<times> StackFrameIterator" where
  "NextFrame it = (case it of [] \<Rightarrow> (None, []) | f # rest \<Rightarrow> (Some f, rest))"

subsection \<open>StackTraceUtils\<close>

text \<open>
  Modelled from the spec: \<open>StackTraceUtils::CountFrames\<close> (vm/stack_trace.cc is not among the
  sources) is the Frame Counter: a read-only traversal of the live frames that returns the
  number of managed frames found after skipping the first \<open>skip_frames\<close> of them. Its last
  two arguments are a null function and a null pointer at its only call, and are left out.
\<close>

function CountFrames_loop ::
  "StackFrame option \<Rightarrow> StackFrameIterator \<Rightarrow> int \<Rightarrow> nat \<Rightarrow> nat" where
  "CountFrames_loop None it skip_frames frame_count = frame_count"
| "CountFrames_loop (Some frame) it skip_frames frame_count =
     (let next = NextFrame it in
      if \<not> IsDartFrame frame then CountFrames_loop (fst next) (snd next) skip_frames frame_count
      else if skip_frames > 0
      then CountFrames_loop (fst next) (snd next) (skip_frames - 1) frame_count
      else CountFrames_loop (fst next) (snd next) skip_frames (frame_count + 1))"
  by pat_completeness auto
termination
  by (relation "measure (\<lambda>(fr, it, _). length it + (case fr of None \<Rightarrow> 0 | Some _ \<Rightarrow> 1))")
     (auto simp: NextFrame_def split: list.splits)

definition CountFrames :: "Thread \<Rightarrow> int \<Rightarrow> nat" where
  "CountFrames thr skip_frames =
     (let first = NextFrame (StackFrameIterator_new thr)
      in CountFrames_loop (fst first) (snd first) skip_frames 0)"

text \<open>
  Modelled from the spec: \<open>StackTraceUtils::CollectFrames\<close> is the fixed variant of the Frame
  Collector. It walks the frames once and writes the code reference and the offset of each
  managed frame beyond the skip count into the pre-sized arrays, from \<open>array_offset\<close> on and
  at most \<open>count\<close> of them, and returns how many it wrote.
\<close>

function CollectFrames_loop ::
  "StackFrame option \<Rightarrow> StackFrameIterator \<Rightarrow> Object list \<Rightarrow> TypedData \<Rightarrow> nat \<Rightarrow> nat \<Rightarrow> int
     \<Rightarrow> nat \<Rightarrow> nat \<times> Object list \<times> TypedData" where
  "CollectFrames_loop None it code_arr pc_offset_arr array_offset count skip_frames collected =
     (collected, code_arr, pc_offset_arr)"
| "CollectFrames_loop (Some frame) it code_arr pc_offset_arr array_offset count skip_frames
       collected =
     (let next = NextFrame it in
      if \<not> collected < count then (collected, code_arr, pc_offset_arr)
      else if \<not> IsDartFrame frame
      then CollectFrames_loop (fst next) (snd next) code_arr pc_offset_arr array_offset count
             skip_frames collected
      else if skip_frames > 0
      then CollectFrames_loop (fst next) (snd next) code_arr pc_offset_arr array_offset count
             (skip_frames - 1) collected
      else CollectFrames_loop (fst next) (snd next)
             (SetAt code_arr array_offset (CodeObject (LookupDartCode frame)))
             (SetUintPtr pc_offset_arr (array_offset * kWordSize)
                (pc frame - PayloadStart (LookupDartCode frame)))
             (array_offset + 1) count skip_frames (collected + 1))"
  by pat_completeness auto
termination
  by (relation "measure (\<lambda>(fr, it, _). length it + (case fr of None \<Rightarrow> 0 | Some _ \<Rightarrow> 1))")
     (auto simp: NextFrame_def split: list.splits)

definition CollectFrames ::
  "Thread \<Rightarrow> Object list \<Rightarrow> TypedData \<Rightarrow> nat \<Rightarrow> nat \<Rightarrow> int \<Rightarrow> nat \<times> Object list \<times> TypedData" where
  "CollectFrames thr code_arr pc_offset_arr array_offset count skip_frames =
     (let first = NextFrame (StackFrameIterator_new thr)
      in CollectFrames_loop (fst first) (snd first) code_arr pc_offset_arr array_offset count
           skip_frames 0)"

text \<open>
  Modelled from the spec: \<open>StackTraceUtils::CollectFramesLazy\<close> is the growable variant of the
  Frame Collector. It walks the frames once and appends the code reference and the offset of
  each managed frame beyond the skip count to the two growable buffers.
\<close>

function CollectFramesLazy_loop ::
  "StackFrame option \<Rightarrow> StackFrameIterator \<Rightarrow> Object list \<Rightarrow> uword list \<Rightarrow> int
     \<Rightarrow> Object list \<times> uword list" where
  "CollectFramesLazy_loop None it code_list pc_offset_list skip_frames =
     (code_list, pc_offset_list)"
| "CollectFramesLazy_loop (Some frame) it code_list pc_offset_list skip_frames =
     (let next = NextFrame it in
      if \<not> IsDartFrame frame
      then CollectFramesLazy_loop (fst next) (snd next) code_list pc_offset_list skip_frames
      else if skip_frames > 0
      then CollectFramesLazy_loop (fst next) (snd next) code_list pc_offset_list (skip_frames - 1)
      else CollectFramesLazy_loop (fst next) (snd next)
             (Add code_list (CodeObject (LookupDartCode frame)))
             (Add pc_offset_list (pc frame - PayloadStart (LookupDartCode frame)))
             skip_frames)"
  by pat_completeness auto
termination
  by (relation "measure (\<lambda>(fr, it, _). length it + (case fr of None \<Rightarrow> 0 | Some _ \<Rightarrow> 1))")
     (auto simp: NextFrame_def split: list.splits)

definition CollectFramesLazy ::
  "Thread \<Rightarrow> Object list \<Rightarrow> uword list \<Rightarrow> int \<Rightarrow> Object list \<times> uword list" where
  "CollectFramesLazy thr code_list pc_offset_list skip_frames =
     (let first = NextFrame (StackFrameIterator_new thr)
      in CollectFramesLazy_loop (fst first) (snd first) code_list pc_offset_list skip_frames)"

section \<open>The functions of stacktrace.cc\<close>

text \<open>
  \<open>CreateStackTraceObject\<close>: the code list becomes a fixed-length array, and the offsets are
  moved into a new typed-data object by a \<open>memmove\<close> inside a \<open>NoSafepointScope\<close>. The thread is
  \<open>Thread::Current()\<close>, whose scope depth the guard changes; it is returned with the result.
\<close>

definition CreateStackTraceObject ::
  "Thread \<Rightarrow> Object list \<Rightarrow> uword list \<Rightarrow> StackTrace \<times> Thread" where
  "CreateStackTraceObject thr code_list pc_offset_list =
     (let code_arr = MakeFixedLength code_list;
          pc_offset_arr = TypedData_New (length pc_offset_list);
          thr1 = NoSafepointScope_enter thr;
          copied = memmove thr1 pc_offset_arr (GrowableArray_data pc_offset_list)
                     (length pc_offset_list * kWordSize);
          thr2 = NoSafepointScope_exit (snd copied)
      in (StackTrace_New code_arr (fst copied), thr2))"

definition CurrentSyncStackTraceLazy :: "Thread \<Rightarrow> int \<Rightarrow> StackTrace" where
  "CurrentSyncStackTraceLazy thr skip_frames =
     (let code_arr = GrowableObjectArray_New kDefaultStackAllocation;
          pc_offset_arr = [];
          collected = CollectFramesLazy thr code_arr pc_offset_arr skip_frames
      in fst (CreateStackTraceObject thr (fst collected) (snd collected)))"

definition CurrentSyncStackTrace :: "Flags \<Rightarrow> Thread \<Rightarrow> int \<Rightarrow> error + StackTrace" where
  "CurrentSyncStackTrace flags thr skip_frames =
     (let stack_trace_length = CountFrames thr skip_frames;
          code_arr = Array_New stack_trace_length;
          pc_offset_arr = TypedData_New stack_trace_length;
          collected = CollectFrames thr code_arr pc_offset_arr 0 stack_trace_length skip_frames;
          collected_frames_count = fst collected
      in if DEBUG flags \<and> collected_frames_count \<noteq> stack_trace_length
         then Inl (AssertionFailed ''collected_frames_count == stack_trace_length'')
         else Inr (StackTrace_New (fst (snd collected)) (snd (snd collected))))"

definition CurrentStackTrace :: "Flags \<Rightarrow> Thread \<Rightarrow> bool \<Rightarrow> int \<Rightarrow> error + StackTrace" where
  "CurrentStackTrace flags thr for_async_function skip_frames =
     (if FLAG_lazy_async_stacks flags then Inr (CurrentSyncStackTraceLazy thr skip_frames)
      else CurrentSyncStackTrace flags thr skip_frames)"

definition GetStackTraceForException :: "Flags \<Rightarrow> Thread \<Rightarrow> error + StackTrace" where
  "GetStackTraceForException flags thr = CurrentStackTrace flags thr False 0"

text \<open>The native entry passes no skip count, so the default, 1, applies.\<close>

definition StackTrace_current :: "Flags \<Rightarrow> Thread \<Rightarrow> error + StackTrace" where
  "StackTrace_current flags thr = CurrentStackTrace flags thr False 1"

function AppendFrames_loop ::
  "StackFrame option \<Rightarrow> StackFrameIterator \<Rightarrow> Object list \<Rightarrow> uword list \<Rightarrow> int
     \<Rightarrow> Object list \<times> uword list" where
  "AppendFrames_loop None it code_list pc_offset_list skip_frames = (code_list, pc_offset_list)"
| "AppendFrames_loop (Some frame) it code_list pc_offset_list skip_frames =
     (let next = NextFrame it in
      if \<not> IsDartFrame frame
      then AppendFrames_loop (fst next) (snd next) code_list pc_offset_list skip_frames
      else if skip_frames > 0
      then AppendFrames_loop (fst next) (snd next) code_list pc_offset_list (skip_frames - 1)
      else AppendFrames_loop (fst next) (snd next)
             (Add code_list (CodeObject (LookupDartCode frame)))
             (Add pc_offset_list (pc frame - PayloadStart (LookupDartCode frame)))
             skip_frames)"
  by pat_completeness auto
termination
  by (relation "measure (\<lambda>(fr, it, _). length it + (case fr of None \<Rightarrow> 0 | Some _ \<Rightarrow> 1))")
     (auto simp: NextFrame_def split: list.splits)

definition AppendFrames ::
  "Flags \<Rightarrow> Thread \<Rightarrow> Object list \<Rightarrow> uword list \<Rightarrow> int \<Rightarrow> error + Object list \<times> uword list" where
  "AppendFrames flags thr code_list pc_offset_list skip_frames =
     (let first = NextFrame (StackFrameIterator_new thr) in
      if DEBUG flags \<and> fst first = None then Inl (AssertionFailed ''frame != NULL'')
      else Inr (AppendFrames_loop (fst first) (snd first) code_list pc_offset_list skip_frames))"

definition GetCurrentStackTrace :: "Flags \<Rightarrow> Thread \<Rightarrow> int \<Rightarrow> error + StackTrace" where
  "GetCurrentStackTrace flags thr skip_frames =
     (case AppendFrames flags thr (GrowableObjectArray_New 0) [] skip_frames of
        Inl e \<Rightarrow> Inl e
      | Inr res \<Rightarrow> Inr (fst (CreateStackTraceObject thr (fst res) (snd res))))"

definition HasStack :: "Thread \<Rightarrow> bool" where
  "HasStack thr = (fst (NextFrame (StackFrameIterator_new thr)) \<noteq> None)"

section \<open>What a capture returns\<close>

text \<open>
  The frames a walk still visits, given the frame in hand and the state of the iterator;
  the managed frames of a stack that remain after the skip; and what a capture records of a
  frame.
\<close>

definition frames_ahead :: "StackFrame option \<Rightarrow> StackFrameIterator \<Rightarrow> StackFrame list" where
  "frames_ahead fr it = (case fr of None \<Rightarrow> [] | Some f \<Rightarrow> f # it)"

definition eligible_frames :: "StackFrame list \<Rightarrow> int \<Rightarrow> StackFrame list" where
  "eligible_frames fs skip_frames = drop (nat skip_frames) (filter IsDartFrame fs)"

definition frame_code :: "StackFrame \<Rightarrow> Object" where
  "frame_code f = CodeObject (LookupDartCode f)"

definition frame_pc_offset :: "StackFrame \<Rightarrow> uword" where
  "frame_pc_offset f = pc f - PayloadStart (LookupDartCode f)"

text \<open>The snapshot that holds the given frames, in their order.\<close>

definition snapshot_of :: "StackFrame list \<Rightarrow> StackTrace" where
  "snapshot_of fs =
     \<lparr>code_array = map frame_code fs,
      pc_offset_array = GrowableArray_data (map frame_pc_offset fs)\<rparr>"

text \<open>The number of offsets a snapshot holds, and the offset at an index.\<close>

definition offset_count :: "StackTrace \<Rightarrow> nat" where
  "offset_count st = length (pc_offset_array st) div kWordSize"

definition offset_at :: "StackTrace \<Rightarrow> nat \<Rightarrow> uword" where
  "offset_at st i = GetUintPtr (pc_offset_array st) (i * kWordSize)"

text \<open>A snapshot without its innermost entry.\<close>

definition remove_innermost :: "StackTrace \<Rightarrow> StackTrace" where
  "remove_innermost st =
     \<lparr>code_array = tl (code_array st), pc_offset_array = drop kWordSize (pc_offset_array st)\<rparr>"

text \<open>
  Modelled from the spec: a snapshot defers to a causal chain when it is the chain, or the
  chain with a synchronous leaf segment before it, that is, when it ends with the chain.
\<close>

definition ends_with :: "'a list \<Rightarrow> 'a list \<Rightarrow> bool" where
  "ends_with xs ys = (length ys \<le> length xs \<and> drop (length xs - length ys) xs = ys)"

definition defers_to_chain :: "StackTrace \<Rightarrow> StackTrace \<Rightarrow> bool" where
  "defers_to_chain st chain =
     (ends_with (code_array st) (code_array chain) \<and>
      ends_with (pc_offset_array st) (pc_offset_array chain))"

section \<open>Example stacks\<close>

text \<open>
  Three Dart functions, a stub frame that is not a Dart frame, and the threads and
  configurations the theorems below are evaluated on.
\<close>

definition code_main :: Code where
  "code_main = \<lparr>code_id = 1, PayloadStart = 0x1000\<rparr>"

definition code_foo :: Code where
  "code_foo = \<lparr>code_id = 2, PayloadStart = 0x2000\<rparr>"

definition code_bar :: Code where
  "code_bar = \<lparr>code_id = 3, PayloadStart = 0x3000\<rparr>"

definition code_stub :: Code where
  "code_stub = \<lparr>code_id = 0, PayloadStart = 0\<rparr>"

definition frame_main :: StackFrame where
  "frame_main = \<lparr>IsDartFrame = True, LookupDartCode = code_main, pc = 0x1024\<rparr>"

definition frame_foo :: StackFrame where
  "frame_foo = \<lparr>IsDartFrame = True, LookupDartCode = code_foo, pc = 0x2010\<rparr>"

definition frame_bar :: StackFrame where
  "frame_bar = \<lparr>IsDartFrame = True, LookupDartCode = code_bar, pc = 0x3108\<rparr>"

definition frame_stub :: StackFrame where
  "frame_stub = \<lparr>IsDartFrame = False, LookupDartCode = code_stub, pc = 0x7f00\<rparr>"

definition thread_empty :: Thread where
  "thread_empty =
     \<lparr>frames = [], no_safepoint_scope_depth = 0, raw_copy_log = [], async_stack_trace = None\<rparr>"

definition thread_stub_only :: Thread where
  "thread_stub_only = thread_empty\<lparr>frames := [frame_stub]\<rparr>"

definition thread_nested :: Thread where
  "thread_nested = thread_empty\<lparr>frames := [frame_bar, frame_stub, frame_foo, frame_main]\<rparr>"

definition thread_async :: Thread where
  "thread_async =
     thread_empty\<lparr>frames := [frame_foo, frame_main],
                   async_stack_trace := Some (snapshot_of [frame_bar])\<rparr>"

definition flags_debug :: Flags where
  "flags_debug =
     \<lparr>FLAG_lazy_async_stacks = False, FLAG_show_invisible_frames = False,
      FLAG_causal_async_stacks = False, DEBUG = True\<rparr>"

definition flags_causal :: Flags where
  "flags_causal = flags_debug\<lparr>FLAG_causal_async_stacks := True\<rparr>"

section \<open>Raw memory: words and their bytes\<close>

lemma length_word_bytes: "length (word_bytes w) = kWordSize"
  by (simp add: word_bytes_def kWordSize_def)

lemma byte_step:
  "(ucast (ucast (drop_bit k w) :: byte) :: uword) OR push_bit 8 (take_bit m (drop_bit (8 + k) w))
     = take_bit (8 + m) (drop_bit k w)"
proof (rule bit_word_eqI)
  fix n assume n: "n < LENGTH(64)"
  have a: "8 \<le> n \<Longrightarrow> 8 + k + (n - 8) = k + n" by simp
  have b: "8 \<le> n \<Longrightarrow> (n - 8 < m) = (n < 8 + m)" by auto
  have c: "n < 8 \<Longrightarrow> n < 8 + m" by simp
  show "bit ((ucast (ucast (drop_bit k w) :: byte) :: uword) OR push_bit 8 (take_bit m (drop_bit (8 + k) w))) n
     = bit (take_bit (8 + m) (drop_bit k w)) n"
    apply (simp only: bit_or_iff bit_ucast_iff bit_push_bit_iff bit_take_bit_iff bit_drop_bit_eq comp_def)
    using n a b c
    apply (cases "8 \<le> n")
     apply (simp_all add: not_le)
    done
qed

lemma bytes_word_map:
  "bytes_word (map (\<lambda>i. ucast (drop_bit (8 * i) w)) [k..<k + n]) = take_bit (8 * n) (drop_bit (8 * k) w)"
proof (induction n arbitrary: k)
  case 0
  show ?case by (simp add: bytes_word_def)
next
  case (Suc n)
  have "[k..<k + Suc n] = k # [Suc k..<Suc k + n]"
    by (simp add: upt_rec)
  moreover have "bytes_word (map (\<lambda>i. ucast (drop_bit (8 * i) w)) [Suc k..<Suc k + n])
      = take_bit (8 * n) (drop_bit (8 + 8 * k) w)"
    using Suc.IH [of "Suc k"] by simp
  ultimately show ?case
    using byte_step [of "8 * k" w "8 * n"]
    by (simp add: bytes_word_def)
qed

lemma bytes_word_word_bytes: "bytes_word (word_bytes w) = w"
  using bytes_word_map [of w 0 8] by (simp add: word_bytes_def take_bit_word_eq_self)

lemma word_bytes_zero: "word_bytes 0 = replicate kWordSize 0"
  by (simp add: word_bytes_def kWordSize_def upt_rec eval_nat_numeral)

lemma length_GrowableArray_data: "length (GrowableArray_data xs) = length xs * kWordSize"
  by (induction xs) (simp_all add: GrowableArray_data_def length_word_bytes)

lemma GrowableArray_data_Cons:
  "GrowableArray_data (x # xs) = word_bytes x @ GrowableArray_data xs"
  by (simp add: GrowableArray_data_def)

lemma GrowableArray_data_append:
  "GrowableArray_data (xs @ ys) = GrowableArray_data xs @ GrowableArray_data ys"
  by (simp add: GrowableArray_data_def)

lemma take_GrowableArray_data:
  "take (i * kWordSize) (GrowableArray_data xs) = GrowableArray_data (take i xs)"
proof (induction xs arbitrary: i)
  case Nil
  show ?case by (simp add: GrowableArray_data_def)
next
  case (Cons x xs)
  show ?case
  proof (cases i)
    case 0
    then show ?thesis by (simp add: GrowableArray_data_def)
  next
    case (Suc j)
    then show ?thesis
      using Cons.IH [of j] by (simp add: GrowableArray_data_Cons length_word_bytes)
  qed
qed

lemma drop_GrowableArray_data:
  "drop (i * kWordSize) (GrowableArray_data xs) = GrowableArray_data (drop i xs)"
proof (induction xs arbitrary: i)
  case Nil
  show ?case by (simp add: GrowableArray_data_def)
next
  case (Cons x xs)
  show ?case
  proof (cases i)
    case 0
    then show ?thesis by simp
  next
    case (Suc j)
    then show ?thesis
      using Cons.IH [of j] by (simp add: GrowableArray_data_Cons length_word_bytes)
  qed
qed

lemma TypedData_New_data: "TypedData_New n = GrowableArray_data (replicate n 0)"
  by (induction n)
     (simp_all add: TypedData_New_def GrowableArray_data_def word_bytes_zero replicate_add)

lemma SetUintPtr_data:
  assumes "i < length ws"
  shows "SetUintPtr (GrowableArray_data ws) (i * kWordSize) v = GrowableArray_data (ws[i := v])"
proof -
  have "i * kWordSize + kWordSize \<le> length ws * kWordSize"
    using assms by (metis Suc_leI mult_Suc mult_le_mono1 add.commute)
  moreover have "i * kWordSize + kWordSize = Suc i * kWordSize" by simp
  ultimately show ?thesis
    using assms
    by (simp only: SetUintPtr_def length_GrowableArray_data if_True
          take_GrowableArray_data drop_GrowableArray_data upd_conv_take_nth_drop
          GrowableArray_data_append GrowableArray_data_Cons)
qed

lemma GetUintPtr_data:
  assumes "i < length ws"
  shows "GetUintPtr (GrowableArray_data ws) (i * kWordSize) = ws ! i"
proof -
  have "drop i ws = ws ! i # drop (Suc i) ws"
    using assms by (simp add: Cons_nth_drop_Suc)
  then have "take kWordSize (drop (i * kWordSize) (GrowableArray_data ws)) = word_bytes (ws ! i)"
    by (simp add: drop_GrowableArray_data GrowableArray_data_Cons length_word_bytes)
  then show ?thesis
    by (simp add: GetUintPtr_def bytes_word_word_bytes)
qed

section \<open>The loops, as functions of the stack\<close>

lemma frames_ahead_NextFrame: "frames_ahead (fst (NextFrame it)) (snd (NextFrame it)) = it"
  by (cases it) (simp_all add: frames_ahead_def NextFrame_def)

lemma frames_ahead_None: "frames_ahead None it = []"
  by (simp add: frames_ahead_def)

lemma frames_ahead_Some: "frames_ahead (Some f) it = f # it"
  by (simp add: frames_ahead_def)

lemma eligible_frames_Nil: "eligible_frames [] k = []"
  by (simp add: eligible_frames_def)

lemma eligible_frames_Cons:
  "eligible_frames (f # fs) k =
     (if \<not> IsDartFrame f then eligible_frames fs k
      else if k > 0 then eligible_frames fs (k - 1)
      else f # eligible_frames fs k)"
proof -
  have "k > 0 \<Longrightarrow> nat k = Suc (nat (k - 1))" by simp
  then show ?thesis
    by (auto simp: eligible_frames_def)
qed

lemma AppendFrames_loop_eq:
  "AppendFrames_loop fr it cl pl k =
     (cl @ map frame_code (eligible_frames (frames_ahead fr it) k),
      pl @ map frame_pc_offset (eligible_frames (frames_ahead fr it) k))"
proof (induction fr it cl pl k rule: AppendFrames_loop.induct)
  case (1 it cl pl k)
  show ?case by (simp add: frames_ahead_None eligible_frames_Nil)
next
  case (2 frame it cl pl k)
  then show ?case
    by (simp add: Let_def frames_ahead_NextFrame frames_ahead_Some eligible_frames_Cons
          Add_def frame_code_def frame_pc_offset_def)
qed

lemma CollectFramesLazy_loop_eq:
  "CollectFramesLazy_loop fr it cl pl k =
     (cl @ map frame_code (eligible_frames (frames_ahead fr it) k),
      pl @ map frame_pc_offset (eligible_frames (frames_ahead fr it) k))"
proof (induction fr it cl pl k rule: CollectFramesLazy_loop.induct)
  case (1 it cl pl k)
  show ?case by (simp add: frames_ahead_None eligible_frames_Nil)
next
  case (2 frame it cl pl k)
  then show ?case
    by (simp add: Let_def frames_ahead_NextFrame frames_ahead_Some eligible_frames_Cons
          Add_def frame_code_def frame_pc_offset_def)
qed

lemma CountFrames_loop_eq:
  "CountFrames_loop fr it k n = n + length (eligible_frames (frames_ahead fr it) k)"
proof (induction fr it k n rule: CountFrames_loop.induct)
  case (1 it k n)
  show ?case by (simp add: frames_ahead_None eligible_frames_Nil)
next
  case (2 frame it k n)
  then show ?case
    by (simp add: Let_def frames_ahead_NextFrame frames_ahead_Some eligible_frames_Cons)
qed

lemma CountFrames_eq: "CountFrames thr k = length (eligible_frames (frames thr) k)"
  by (simp add: CountFrames_def Let_def CountFrames_loop_eq frames_ahead_NextFrame
        StackFrameIterator_new_def)

lemma CollectFramesLazy_eq:
  "CollectFramesLazy thr cl pl k =
     (cl @ map frame_code (eligible_frames (frames thr) k),
      pl @ map frame_pc_offset (eligible_frames (frames thr) k))"
  by (simp add: CollectFramesLazy_def Let_def CollectFramesLazy_loop_eq frames_ahead_NextFrame
        StackFrameIterator_new_def)

text \<open>Writing a run of values into an array, from an index on.\<close>

lemma write_step:
  assumes "off < length xs"
  shows "take (Suc off) (xs[off := y]) @ ys @ drop (Suc off + length ys) (xs[off := y])
           = take off xs @ (y # ys) @ drop (off + length (y # ys)) xs"
  using assms by (simp add: take_Suc_conv_app_nth)

lemma CollectFrames_loop_eq:
  assumes "pa = GrowableArray_data ws"
    and "off + (count - collected) \<le> length ca"
    and "off + (count - collected) \<le> length ws"
  shows "CollectFrames_loop fr it ca pa off count k collected =
     (collected + length (take (count - collected) (eligible_frames (frames_ahead fr it) k)),
      take off ca @ map frame_code (take (count - collected) (eligible_frames (frames_ahead fr it) k))
        @ drop (off + length (take (count - collected) (eligible_frames (frames_ahead fr it) k))) ca,
      GrowableArray_data
        (take off ws @ map frame_pc_offset (take (count - collected) (eligible_frames (frames_ahead fr it) k))
           @ drop (off + length (take (count - collected) (eligible_frames (frames_ahead fr it) k))) ws))"
  using assms
proof (induction fr it ca pa off count k collected arbitrary: ws rule: CollectFrames_loop.induct)
  case (1 it ca pa off count k collected)
  then show ?case by (simp add: frames_ahead_None eligible_frames_Nil)
next
  case (2 frame it ca pa off count k collected)
  show ?case
  proof (cases "collected < count")
    case False
    then show ?thesis using "2.prems" by simp
  next
    case lt: True
    show ?thesis
    proof (cases "IsDartFrame frame")
      case False
      then show ?thesis
        using lt "2.IH"(1) [OF refl _ _ "2.prems"] "2.prems"
        by (simp add: frames_ahead_NextFrame frames_ahead_Some eligible_frames_Cons)
    next
      case dart: True
      show ?thesis
      proof (cases "k > 0")
        case True
        then show ?thesis
          using lt dart "2.IH"(2) [OF refl _ _ _ "2.prems"] "2.prems"
          by (simp add: frames_ahead_NextFrame frames_ahead_Some eligible_frames_Cons)
      next
        case False
        have off: "off < length ca" "off < length ws"
          using lt "2.prems" by auto
        let ?E = "take (count - (collected + 1)) (eligible_frames it k)"
        have E: "take (count - collected) (eligible_frames (frames_ahead (Some frame) it) k)
                   = frame # ?E"
        proof -
          have "count - collected = Suc (count - (collected + 1))"
            using lt by simp
          then show ?thesis
            using dart False
            by (simp only: frames_ahead_Some eligible_frames_Cons take_Suc_Cons if_False
                  simp_thms if_True)
        qed
        have pa': "SetUintPtr pa (off * kWordSize) (pc frame - PayloadStart (LookupDartCode frame))
                 = GrowableArray_data (ws[off := frame_pc_offset frame])"
          using off "2.prems"(1) by (simp add: SetUintPtr_data frame_pc_offset_def)
        have p2: "off + 1 + (count - (collected + 1)) \<le> length (SetAt ca off (CodeObject (LookupDartCode frame)))"
          using lt "2.prems" by (simp add: SetAt_def)
        have p3: "off + 1 + (count - (collected + 1)) \<le> length (ws[off := frame_pc_offset frame])"
          using lt "2.prems" by simp
        have step: "CollectFrames_loop (Some frame) it ca pa off count k collected =
            CollectFrames_loop (fst (NextFrame it)) (snd (NextFrame it))
              (SetAt ca off (CodeObject (LookupDartCode frame)))
              (SetUintPtr pa (off * kWordSize) (pc frame - PayloadStart (LookupDartCode frame)))
              (off + 1) count k (collected + 1)"
          using lt dart False by (simp add: Let_def)
        show ?thesis
          unfolding step E
          using "2.IH"(3) [OF refl _ _ _ pa' p2 p3] lt dart False off
                write_step [OF off(1), of "frame_code frame" "map frame_code ?E"]
                write_step [OF off(2), of "frame_pc_offset frame" "map frame_pc_offset ?E"]
          by (simp add: frames_ahead_NextFrame SetAt_def frame_code_def)
      qed
    qed
  qed
qed

section \<open>The captures, as functions of the stack\<close>

lemma CollectFrames_eq:
  "CollectFrames thr (Array_New (length (eligible_frames (frames thr) k)))
       (TypedData_New (length (eligible_frames (frames thr) k))) 0
       (length (eligible_frames (frames thr) k)) k =
     (length (eligible_frames (frames thr) k),
      map frame_code (eligible_frames (frames thr) k),
      GrowableArray_data (map frame_pc_offset (eligible_frames (frames thr) k)))"
proof -
  let ?E = "eligible_frames (frames thr) k"
  let ?n = "length ?E"
  have "CollectFrames_loop (fst (NextFrame (frames thr))) (snd (NextFrame (frames thr)))
          (Array_New ?n) (TypedData_New ?n) 0 ?n k 0 =
        (0 + length (take (?n - 0) ?E),
         take 0 (Array_New ?n) @ map frame_code (take (?n - 0) ?E)
           @ drop (0 + length (take (?n - 0) ?E)) (Array_New ?n),
         GrowableArray_data (take 0 (replicate ?n 0) @ map frame_pc_offset (take (?n - 0) ?E)
           @ drop (0 + length (take (?n - 0) ?E)) (replicate ?n 0)))"
    using CollectFrames_loop_eq [of "TypedData_New ?n" "replicate ?n 0" 0 ?n 0 "Array_New ?n"
            "fst (NextFrame (frames thr))" "snd (NextFrame (frames thr))" k]
    by (simp only: TypedData_New_data frames_ahead_NextFrame Array_New_def length_replicate
          add_0 diff_zero le_refl)
  then show ?thesis
    by (simp add: CollectFrames_def Let_def StackFrameIterator_new_def Array_New_def)
qed

lemma CreateStackTraceObject_fst:
  "fst (CreateStackTraceObject thr cl pl) =
     \<lparr>code_array = cl, pc_offset_array = GrowableArray_data pl\<rparr>"
  by (simp add: CreateStackTraceObject_def Let_def memmove_def MakeFixedLength_def
        StackTrace_New_def TypedData_New_def length_GrowableArray_data)

lemma CreateStackTraceObject_snd:
  "snd (CreateStackTraceObject thr cl pl) =
     thr\<lparr>raw_copy_log :=
           raw_copy_log thr @ [(no_safepoint_scope_depth thr + 1, length pl * kWordSize)]\<rparr>"
  by (simp add: CreateStackTraceObject_def Let_def memmove_def NoSafepointScope_enter_def
        NoSafepointScope_exit_def)

lemma CurrentSyncStackTraceLazy_eq:
  "CurrentSyncStackTraceLazy thr k = snapshot_of (eligible_frames (frames thr) k)"
  by (simp add: CurrentSyncStackTraceLazy_def Let_def CollectFramesLazy_eq
        CreateStackTraceObject_fst GrowableObjectArray_New_def snapshot_of_def)

lemma CurrentSyncStackTrace_eq:
  "CurrentSyncStackTrace flags thr k = Inr (snapshot_of (eligible_frames (frames thr) k))"
  by (simp add: CurrentSyncStackTrace_def Let_def CountFrames_eq CollectFrames_eq
        StackTrace_New_def snapshot_of_def)

lemma CurrentStackTrace_eq:
  "CurrentStackTrace flags thr b k = Inr (snapshot_of (eligible_frames (frames thr) k))"
  by (simp add: CurrentStackTrace_def CurrentSyncStackTraceLazy_eq CurrentSyncStackTrace_eq)

lemma NextFrame_None: "(fst (NextFrame it) = None) = (it = [])"
  by (cases it) (simp_all add: NextFrame_def)

lemma AppendFrames_eq:
  "AppendFrames flags thr cl pl k =
     (if DEBUG flags \<and> frames thr = [] then Inl (AssertionFailed ''frame != NULL'')
      else Inr (cl @ map frame_code (eligible_frames (frames thr) k),
                pl @ map frame_pc_offset (eligible_frames (frames thr) k)))"
  by (simp add: AppendFrames_def Let_def AppendFrames_loop_eq frames_ahead_NextFrame
        StackFrameIterator_new_def NextFrame_None)

lemma GetCurrentStackTrace_eq:
  "GetCurrentStackTrace flags thr k =
     (if DEBUG flags \<and> frames thr = [] then Inl (AssertionFailed ''frame != NULL'')
      else Inr (snapshot_of (eligible_frames (frames thr) k)))"
  by (simp add: GetCurrentStackTrace_def AppendFrames_eq CreateStackTraceObject_fst
        GrowableObjectArray_New_def snapshot_of_def)

lemma offset_count_snapshot_of: "offset_count (snapshot_of fs) = length fs"
  by (simp add: offset_count_def snapshot_of_def length_GrowableArray_data kWordSize_def)

lemma offset_at_snapshot_of: "i < length fs \<Longrightarrow> offset_at (snapshot_of fs) i = frame_pc_offset (fs ! i)"
  by (simp add: offset_at_def snapshot_of_def GetUintPtr_data)

lemma remove_innermost_snapshot_of: "remove_innermost (snapshot_of fs) = snapshot_of (tl fs)"
proof (cases fs)
  case Nil
  then show ?thesis by (simp add: remove_innermost_def snapshot_of_def GrowableArray_data_def)
next
  case (Cons f rest)
  then show ?thesis
    by (simp add: remove_innermost_def snapshot_of_def GrowableArray_data_Cons length_word_bytes
          map_tl)
qed

lemma eligible_frames_Suc:
  "0 \<le> k \<Longrightarrow> eligible_frames fs (k + 1) = tl (eligible_frames fs k)"
  by (simp add: eligible_frames_def nat_add_distrib drop_Suc tl_drop)

lemma eligible_frames_empty:
  "k > int (length (filter IsDartFrame fs)) \<Longrightarrow> eligible_frames fs k = []"
  by (simp add: eligible_frames_def)

text \<open>The selector, on the modelled collectors.\<close>

lemma CurrentStackTrace_skip_beyond:
  "k > int (length (filter IsDartFrame (frames thr))) \<Longrightarrow>
     CurrentStackTrace flags thr b k = Inr \<lparr>code_array = [], pc_offset_array = []\<rparr>"
  by (simp add: CurrentStackTrace_eq eligible_frames_empty snapshot_of_def GrowableArray_data_def)

lemma CurrentStackTrace_skip_Suc:
  "0 \<le> k \<Longrightarrow>
     CurrentStackTrace flags thr b (k + 1) =
       Inr (remove_innermost (snapshot_of (eligible_frames (frames thr) k)))"
  by (simp add: CurrentStackTrace_eq eligible_frames_Suc remove_innermost_snapshot_of)

section \<open>The claims\<close>

text \<open>
  C1. The Eager-Sync strategy (\<open>CurrentSyncStackTrace\<close>: count, allocate once, collect into
  the fixed arrays) and the Lazy-Sync strategy (\<open>CurrentSyncStackTraceLazy\<close>: collect once
  into growable buffers, then build the snapshot) return the same snapshot for the same
  thread and the same skip count: the same code references and the same offset bytes, so
  the same length and the same pair at every index. It holds for every skip count, the
  valid ones that do not exceed the number of managed frames among them, and whether or
  not assertions are checked.
\<close>

theorem eager_and_lazy_agree:
  "CurrentSyncStackTrace flags thr k = Inr (CurrentSyncStackTraceLazy thr k)"
  by (simp add: CurrentSyncStackTrace_eq CurrentSyncStackTraceLazy_eq)

theorem eager_and_lazy_agree_witness:
  "CurrentSyncStackTrace flags_debug thread_nested 1 = Inr (CurrentSyncStackTraceLazy thread_nested 1)
   \<and> CurrentSyncStackTraceLazy thread_nested 1 =
       \<lparr>code_array = [CodeObject code_foo, CodeObject code_main],
        pc_offset_array = [0x10, 0, 0, 0, 0, 0, 0, 0, 0x24, 0, 0, 0, 0, 0, 0, 0]\<rparr>"
proof -
  have "CurrentSyncStackTraceLazy thread_nested 1 =
       \<lparr>code_array = [CodeObject code_foo, CodeObject code_main],
        pc_offset_array = [0x10, 0, 0, 0, 0, 0, 0, 0, 0x24, 0, 0, 0, 0, 0, 0, 0]\<rparr>"
    by code_simp
  with eager_and_lazy_agree [of flags_debug thread_nested 1] show ?thesis
    by simp
qed

text \<open>
  C2. Every capture returns a snapshot whose code references and offsets are equally many.
  In the Eager-Sync path that number is the result of \<open>CountFrames\<close> for the same skip
  count, the offset buffer has exactly that many words, \<open>CollectFrames\<close> reports that many
  frames collected, and so the capture returns a snapshot even when the assertion
  \<open>collected_frames_count == stack_trace_length\<close> is checked.
\<close>

theorem snapshot_lengths_agree:
  "(\<exists>st. CurrentSyncStackTrace flags thr k = Inr st
        \<and> length (code_array st) = CountFrames thr k
        \<and> offset_count st = CountFrames thr k
        \<and> length (pc_offset_array st) = CountFrames thr k * kWordSize)
   \<and> fst (CollectFrames thr (Array_New (CountFrames thr k)) (TypedData_New (CountFrames thr k))
            0 (CountFrames thr k) k) = CountFrames thr k
   \<and> length (code_array (CurrentSyncStackTraceLazy thr k))
       = offset_count (CurrentSyncStackTraceLazy thr k)
   \<and> (\<forall>st. GetCurrentStackTrace flags thr k = Inr st
         \<longrightarrow> length (code_array st) = offset_count st)"
proof -
  let ?E = "eligible_frames (frames thr) k"
  have len: "length (code_array (snapshot_of ?E)) = length ?E"
    by (simp add: snapshot_of_def)
  have bytes: "length (pc_offset_array (snapshot_of ?E)) = length ?E * kWordSize"
    by (simp add: snapshot_of_def length_GrowableArray_data)
  have "\<exists>st. CurrentSyncStackTrace flags thr k = Inr st
        \<and> length (code_array st) = CountFrames thr k
        \<and> offset_count st = CountFrames thr k
        \<and> length (pc_offset_array st) = CountFrames thr k * kWordSize"
    using len bytes by (simp add: CurrentSyncStackTrace_eq CountFrames_eq offset_count_snapshot_of)
  moreover have "fst (CollectFrames thr (Array_New (CountFrames thr k))
            (TypedData_New (CountFrames thr k)) 0 (CountFrames thr k) k) = CountFrames thr k"
    by (simp add: CountFrames_eq CollectFrames_eq)
  moreover have "length (code_array (CurrentSyncStackTraceLazy thr k))
       = offset_count (CurrentSyncStackTraceLazy thr k)"
    using len by (simp add: CurrentSyncStackTraceLazy_eq offset_count_snapshot_of)
  moreover have "\<forall>st. GetCurrentStackTrace flags thr k = Inr st
         \<longrightarrow> length (code_array st) = offset_count st"
    using len by (auto simp: GetCurrentStackTrace_eq offset_count_snapshot_of split: if_splits)
  ultimately show ?thesis by blast
qed

theorem snapshot_lengths_agree_witness:
  "GetCurrentStackTrace flags_debug thread_nested 1 =
     Inr \<lparr>code_array = [CodeObject code_foo, CodeObject code_main],
          pc_offset_array = [0x10, 0, 0, 0, 0, 0, 0, 0, 0x24, 0, 0, 0, 0, 0, 0, 0]\<rparr>
   \<and> length [CodeObject code_foo, CodeObject code_main]
       = offset_count \<lparr>code_array = [CodeObject code_foo, CodeObject code_main],
          pc_offset_array = [0x10, 0, 0, 0, 0, 0, 0, 0, 0x24, 0, 0, 0, 0, 0, 0, 0]\<rparr>
   \<and> CountFrames thread_nested 1 = 2
   \<and> (\<exists>st. CurrentSyncStackTrace flags_debug thread_nested 1 = Inr st
          \<and> length (code_array st) = 2 \<and> offset_count st = 2)"
proof -
  have h: "GetCurrentStackTrace flags_debug thread_nested 1 =
     Inr \<lparr>code_array = [CodeObject code_foo, CodeObject code_main],
          pc_offset_array = [0x10, 0, 0, 0, 0, 0, 0, 0, 0x24, 0, 0, 0, 0, 0, 0, 0]\<rparr>"
    by code_simp
  have c: "CountFrames thread_nested 1 = 2"
    by code_simp
  from snapshot_lengths_agree [of flags_debug thread_nested 1] h c show ?thesis
    by auto
qed

text \<open>
  C3. The claim has the selector defer to the chain of asynchronous snapshots recorded on
  the thread when causal chains are enabled and the capture is for an exception, and the
  comment above \<open>CurrentStackTrace\<close> says the same: the function itself handles the causal
  case, extracts the causal stack from the thread and prepends the current synchronous
  stack. The code does not do it. On a thread with two Dart frames and a recorded chain,
  with causal chains enabled, the capture for an exception returns the plain synchronous
  snapshot of the two frames, whether the lazy flag is set or not. That snapshot does not
  end with the chain, and it is the snapshot the thread yields with no chain recorded and
  causal chains disabled.
\<close>

theorem selector_ignores_causal_chain:
  "FLAG_causal_async_stacks flags_causal
   \<and> async_stack_trace thread_async = Some (snapshot_of [frame_bar])
   \<and> GetStackTraceForException flags_causal thread_async
       = Inr (snapshot_of [frame_foo, frame_main])
   \<and> GetStackTraceForException (flags_causal\<lparr>FLAG_lazy_async_stacks := True\<rparr>) thread_async
       = Inr (snapshot_of [frame_foo, frame_main])
   \<and> \<not> defers_to_chain (snapshot_of [frame_foo, frame_main]) (snapshot_of [frame_bar])
   \<and> GetStackTraceForException flags_debug (thread_async\<lparr>async_stack_trace := None\<rparr>)
       = Inr (snapshot_of [frame_foo, frame_main])"
  by code_simp

text \<open>
  C4. \<open>CreateStackTraceObject\<close> returns a snapshot with the code references it was given
  and an offset buffer that is, byte for byte, the memory of the source offsets: it holds
  as many words as there are offsets, and the word at every index is the source offset at
  that index. The one \<open>memmove\<close> that fills the buffer runs inside the \<open>NoSafepointScope\<close>: the
  log shows it one level deeper than the caller's no-safepoint depth, which is positive, and
  the depth is the caller's again when the function returns.
\<close>

theorem CreateStackTraceObject_verbatim_copy:
  "fst (CreateStackTraceObject thr code_list pc_offset_list) =
     \<lparr>code_array = code_list, pc_offset_array = GrowableArray_data pc_offset_list\<rparr>
   \<and> offset_count (fst (CreateStackTraceObject thr code_list pc_offset_list))
       = length pc_offset_list
   \<and> (\<forall>i < length pc_offset_list.
         offset_at (fst (CreateStackTraceObject thr code_list pc_offset_list)) i
           = pc_offset_list ! i)
   \<and> snd (CreateStackTraceObject thr code_list pc_offset_list) =
       thr\<lparr>raw_copy_log := raw_copy_log thr @
              [(no_safepoint_scope_depth thr + 1, length pc_offset_list * kWordSize)]\<rparr>"
proof -
  have "offset_count \<lparr>code_array = code_list, pc_offset_array = GrowableArray_data pc_offset_list\<rparr>
          = length pc_offset_list"
    by (simp add: offset_count_def length_GrowableArray_data kWordSize_def)
  moreover have "\<forall>i < length pc_offset_list.
      offset_at \<lparr>code_array = code_list, pc_offset_array = GrowableArray_data pc_offset_list\<rparr> i
        = pc_offset_list ! i"
    by (simp add: offset_at_def GetUintPtr_data)
  ultimately show ?thesis
    by (simp add: CreateStackTraceObject_fst CreateStackTraceObject_snd)
qed

theorem CreateStackTraceObject_verbatim_copy_witness:
  "(1::nat) < length [0x10, 0x24 :: uword]
   \<and> offset_at (fst (CreateStackTraceObject thread_empty
          [CodeObject code_foo, CodeObject code_main] [0x10, 0x24])) 1 = 0x24
   \<and> fst (CreateStackTraceObject thread_empty [CodeObject code_foo, CodeObject code_main]
          [0x10, 0x24]) =
       \<lparr>code_array = [CodeObject code_foo, CodeObject code_main],
        pc_offset_array = [0x10, 0, 0, 0, 0, 0, 0, 0, 0x24, 0, 0, 0, 0, 0, 0, 0]\<rparr>
   \<and> raw_copy_log (snd (CreateStackTraceObject thread_empty
          [CodeObject code_foo, CodeObject code_main] [0x10, 0x24])) = [(1, 16)]
   \<and> no_safepoint_scope_depth (snd (CreateStackTraceObject thread_empty
          [CodeObject code_foo, CodeObject code_main] [0x10, 0x24])) = 0"
proof -
  have d: "GrowableArray_data [0x10, 0x24] = [0x10, 0, 0, 0, 0, 0, 0, 0, 0x24, 0, 0, 0, 0, 0, 0, 0]"
    by code_simp
  have t: "raw_copy_log thread_empty = [] \<and> no_safepoint_scope_depth thread_empty = 0"
    by (simp add: thread_empty_def)
  note copy = CreateStackTraceObject_verbatim_copy
         [of thread_empty "[CodeObject code_foo, CodeObject code_main]" "[0x10, 0x24]"]
  have i: "(1::nat) < length [0x10, 0x24 :: uword]"
    by simp
  from copy have "\<forall>i < length [0x10, 0x24 :: uword].
      offset_at (fst (CreateStackTraceObject thread_empty
          [CodeObject code_foo, CodeObject code_main] [0x10, 0x24])) i = [0x10, 0x24] ! i"
    by blast
  with i have "offset_at (fst (CreateStackTraceObject thread_empty
          [CodeObject code_foo, CodeObject code_main] [0x10, 0x24])) 1 = [0x10, 0x24] ! 1"
    by blast
  then have o: "offset_at (fst (CreateStackTraceObject thread_empty
          [CodeObject code_foo, CodeObject code_main] [0x10, 0x24])) 1 = 0x24"
    by simp
  from copy d have f: "fst (CreateStackTraceObject thread_empty
          [CodeObject code_foo, CodeObject code_main] [0x10, 0x24]) =
       \<lparr>code_array = [CodeObject code_foo, CodeObject code_main],
        pc_offset_array = [0x10, 0, 0, 0, 0, 0, 0, 0, 0x24, 0, 0, 0, 0, 0, 0, 0]\<rparr>"
    by simp
  from copy t have s: "snd (CreateStackTraceObject thread_empty
          [CodeObject code_foo, CodeObject code_main] [0x10, 0x24]) =
       thread_empty\<lparr>raw_copy_log := [(1, 16)]\<rparr>"
    by (simp add: kWordSize_def)
  from i o f show ?thesis
    unfolding s using t by simp
qed

text \<open>
  C5. \<open>GetStackTraceForException\<close> calls the selector with skip count 0: its snapshot holds
  every Dart frame the walk of the thread yields, innermost first, and nothing else; the
  frame of the capture call itself is not a frame of that walk. The native entry
  \<open>StackTrace_current\<close> calls the selector with the default skip count, 1: its snapshot is
  the same one without the innermost Dart frame, exactly one frame less. Both pass \<open>false\<close>
  for \<open>for_async_function\<close>, and both get the strategy the selector chooses from
  \<open>FLAG_lazy_async_stacks\<close>, with the same result under either strategy.
\<close>

theorem entry_points_skip_counts:
  "GetStackTraceForException flags thr = CurrentStackTrace flags thr False 0
   \<and> StackTrace_current flags thr = CurrentStackTrace flags thr False (0 + 1)
   \<and> GetStackTraceForException flags thr =
       (if FLAG_lazy_async_stacks flags then Inr (CurrentSyncStackTraceLazy thr 0)
        else CurrentSyncStackTrace flags thr 0)
   \<and> StackTrace_current flags thr =
       (if FLAG_lazy_async_stacks flags then Inr (CurrentSyncStackTraceLazy thr 1)
        else CurrentSyncStackTrace flags thr 1)
   \<and> GetStackTraceForException flags thr =
       Inr (snapshot_of (filter IsDartFrame (frames thr)))
   \<and> StackTrace_current flags thr =
       Inr (snapshot_of (tl (filter IsDartFrame (frames thr))))
   \<and> StackTrace_current flags thr =
       Inr (remove_innermost (snapshot_of (filter IsDartFrame (frames thr))))"
proof -
  have zero: "eligible_frames (frames thr) 0 = filter IsDartFrame (frames thr)"
    by (simp add: eligible_frames_def)
  have one: "eligible_frames (frames thr) 1 = tl (filter IsDartFrame (frames thr))"
    using eligible_frames_Suc [of 0 "frames thr"] zero by simp
  have exc: "GetStackTraceForException flags thr =
       Inr (snapshot_of (filter IsDartFrame (frames thr)))"
    by (simp add: GetStackTraceForException_def CurrentStackTrace_eq zero)
  have cur: "StackTrace_current flags thr =
       Inr (snapshot_of (tl (filter IsDartFrame (frames thr))))"
    by (simp add: StackTrace_current_def CurrentStackTrace_eq one)
  have sel: "GetStackTraceForException flags thr = CurrentStackTrace flags thr False 0
      \<and> StackTrace_current flags thr = CurrentStackTrace flags thr False (0 + 1)"
    by (simp add: GetStackTraceForException_def StackTrace_current_def)
  have pol: "GetStackTraceForException flags thr =
       (if FLAG_lazy_async_stacks flags then Inr (CurrentSyncStackTraceLazy thr 0)
        else CurrentSyncStackTrace flags thr 0)
      \<and> StackTrace_current flags thr =
       (if FLAG_lazy_async_stacks flags then Inr (CurrentSyncStackTraceLazy thr 1)
        else CurrentSyncStackTrace flags thr 1)"
    by (simp add: GetStackTraceForException_def StackTrace_current_def CurrentStackTrace_def)
  from sel pol exc cur show ?thesis
    by (simp only: remove_innermost_snapshot_of simp_thms)
qed

theorem entry_points_skip_counts_witness:
  "filter IsDartFrame (frames thread_nested) = [frame_bar, frame_foo, frame_main]
   \<and> GetStackTraceForException flags_debug thread_nested
       = Inr (snapshot_of [frame_bar, frame_foo, frame_main])
   \<and> StackTrace_current flags_debug thread_nested = Inr (snapshot_of [frame_foo, frame_main])
   \<and> GetStackTraceForException (flags_debug\<lparr>FLAG_lazy_async_stacks := True\<rparr>) thread_nested
       = Inr (snapshot_of [frame_bar, frame_foo, frame_main])
   \<and> StackTrace_current (flags_debug\<lparr>FLAG_lazy_async_stacks := True\<rparr>) thread_nested
       = Inr (snapshot_of [frame_foo, frame_main])"
proof -
  have f: "filter IsDartFrame (frames thread_nested) = [frame_bar, frame_foo, frame_main]"
    by (simp add: thread_nested_def thread_empty_def frame_bar_def frame_foo_def
          frame_main_def frame_stub_def)
  note eager = entry_points_skip_counts [of flags_debug thread_nested]
  note lazy = entry_points_skip_counts [of "flags_debug\<lparr>FLAG_lazy_async_stacks := True\<rparr>" thread_nested]
  from eager have "GetStackTraceForException flags_debug thread_nested
       = Inr (snapshot_of (filter IsDartFrame (frames thread_nested)))"
    by blast
  with f have e0: "GetStackTraceForException flags_debug thread_nested
       = Inr (snapshot_of [frame_bar, frame_foo, frame_main])"
    by simp
  from eager have "StackTrace_current flags_debug thread_nested
       = Inr (snapshot_of (tl (filter IsDartFrame (frames thread_nested))))"
    by blast
  with f have e1: "StackTrace_current flags_debug thread_nested
       = Inr (snapshot_of [frame_foo, frame_main])"
    by simp
  from lazy have "GetStackTraceForException (flags_debug\<lparr>FLAG_lazy_async_stacks := True\<rparr>)
       thread_nested = Inr (snapshot_of (filter IsDartFrame (frames thread_nested)))"
    by blast
  with f have l0: "GetStackTraceForException (flags_debug\<lparr>FLAG_lazy_async_stacks := True\<rparr>)
       thread_nested = Inr (snapshot_of [frame_bar, frame_foo, frame_main])"
    by simp
  from lazy have "StackTrace_current (flags_debug\<lparr>FLAG_lazy_async_stacks := True\<rparr>)
       thread_nested = Inr (snapshot_of (tl (filter IsDartFrame (frames thread_nested))))"
    by blast
  with f have l1: "StackTrace_current (flags_debug\<lparr>FLAG_lazy_async_stacks := True\<rparr>)
       thread_nested = Inr (snapshot_of [frame_foo, frame_main])"
    by simp
  from f e0 e1 l0 l1 show ?thesis
    by simp
qed

text \<open>
  C6 as stated fails. On a thread that has no frame at all, 5 is more than the number of
  managed frames, and the explicit capture with assertions checked stops at
  \<open>ASSERT(frame != NULL)\<close> instead of returning an empty snapshot.
\<close>

theorem skip_beyond_stack_counterexample:
  "5 > int (length (filter IsDartFrame (frames thread_empty)))
   \<and> GetCurrentStackTrace flags_debug thread_empty 5 = Inl (AssertionFailed ''frame != NULL'')"
  by code_simp

text \<open>
  C6, amended. A capture with a skip count greater than the number of managed frames
  returns the snapshot of length zero: the selector's captures always, on the modelled
  collectors, and the explicit capture \<open>GetCurrentStackTrace\<close> provided the thread has at
  least one frame of any kind or assertions are not checked.
\<close>

theorem skip_beyond_stack_is_empty:
  assumes "k > int (length (filter IsDartFrame (frames thr)))"
  shows "(\<not> DEBUG flags \<or> frames thr \<noteq> [] \<longrightarrow>
            GetCurrentStackTrace flags thr k = Inr \<lparr>code_array = [], pc_offset_array = []\<rparr>)
         \<and> CurrentStackTrace flags thr b k = Inr \<lparr>code_array = [], pc_offset_array = []\<rparr>"
proof -
  have "snapshot_of (eligible_frames (frames thr) k) = \<lparr>code_array = [], pc_offset_array = []\<rparr>"
    using assms by (simp add: eligible_frames_empty snapshot_of_def GrowableArray_data_def)
  then show ?thesis
    by (auto simp: GetCurrentStackTrace_eq CurrentStackTrace_eq)
qed

theorem skip_beyond_stack_is_empty_witness:
  "5 > int (length (filter IsDartFrame (frames thread_nested)))
   \<and> DEBUG flags_debug \<and> frames thread_nested \<noteq> []
   \<and> length (filter IsDartFrame (frames thread_nested)) = 3
   \<and> GetCurrentStackTrace flags_debug thread_nested 5 = Inr \<lparr>code_array = [], pc_offset_array = []\<rparr>
   \<and> CurrentStackTrace flags_debug thread_nested False 5
       = Inr \<lparr>code_array = [], pc_offset_array = []\<rparr>"
proof -
  have n: "length (filter IsDartFrame (frames thread_nested)) = 3"
    by code_simp
  then have a: "5 > int (length (filter IsDartFrame (frames thread_nested)))"
    by simp
  have d: "DEBUG flags_debug"
    by (simp add: flags_debug_def)
  have f: "frames thread_nested \<noteq> []"
    by (simp add: thread_nested_def thread_empty_def)
  then have b: "\<not> DEBUG flags_debug \<or> frames thread_nested \<noteq> []"
    by simp
  from skip_beyond_stack_is_empty [OF a, of flags_debug False] n a b d f show ?thesis
    by simp
qed

text \<open>
  C7. When the skip count \<open>k\<close> leaves at least one managed frame, the capture with skip
  count \<open>k + 1\<close> returns the snapshot of the capture with skip count \<open>k\<close> without its
  innermost entry: the first code reference and the first offset word are gone, the others
  are the same and in the same order. It holds for the explicit capture
  \<open>GetCurrentStackTrace\<close> and, on the modelled collectors, for the selector's captures.
\<close>

theorem skip_one_more_removes_innermost:
  assumes "0 \<le> k" and "k < int (length (filter IsDartFrame (frames thr)))"
  shows "(\<exists>st. GetCurrentStackTrace flags thr k = Inr st
           \<and> code_array st \<noteq> []
           \<and> GetCurrentStackTrace flags thr (k + 1) = Inr (remove_innermost st))
         \<and> (\<exists>st. CurrentStackTrace flags thr b k = Inr st
           \<and> code_array st \<noteq> []
           \<and> CurrentStackTrace flags thr b (k + 1) = Inr (remove_innermost st))"
proof -
  have ne: "frames thr \<noteq> []"
    using assms by auto
  have "eligible_frames (frames thr) k \<noteq> []"
    using assms by (simp add: eligible_frames_def)
  then have "code_array (snapshot_of (eligible_frames (frames thr) k)) \<noteq> []"
    by (simp add: snapshot_of_def)
  then show ?thesis
    using ne assms(1)
    by (simp add: GetCurrentStackTrace_eq CurrentStackTrace_eq eligible_frames_Suc
          remove_innermost_snapshot_of)
qed

theorem skip_one_more_removes_innermost_witness:
  "(0::int) \<le> 1 \<and> 1 < int (length (filter IsDartFrame (frames thread_nested)))
   \<and> GetCurrentStackTrace flags_debug thread_nested 1 = Inr (snapshot_of [frame_foo, frame_main])
   \<and> GetCurrentStackTrace flags_debug thread_nested (1 + 1) = Inr (snapshot_of [frame_main])
   \<and> CurrentStackTrace flags_debug thread_nested False 1 = Inr (snapshot_of [frame_foo, frame_main])
   \<and> CurrentStackTrace flags_debug thread_nested False (1 + 1) = Inr (snapshot_of [frame_main])"
proof -
  have a: "(0::int) \<le> 1" by simp
  have b: "1 < int (length (filter IsDartFrame (frames thread_nested)))"
    by code_simp
  have c: "GetCurrentStackTrace flags_debug thread_nested 1 = Inr (snapshot_of [frame_foo, frame_main])"
    by code_simp
  have d: "remove_innermost (snapshot_of [frame_foo, frame_main]) = snapshot_of [frame_main]"
    by code_simp
  have c': "CurrentStackTrace flags_debug thread_nested False 1 = Inr (snapshot_of [frame_foo, frame_main])"
    by code_simp
  from skip_one_more_removes_innermost [OF a b, of flags_debug False] a b c c' d show ?thesis
    by auto
qed

text \<open>
  C8. \<open>HasStack\<close> is false exactly when the thread has no frame of any kind. It is true as
  soon as there is a frame, also when none of the frames is a Dart frame.
\<close>

theorem HasStack_any_frame:
  "HasStack thr = (frames thr \<noteq> [])
   \<and> (frames thr \<noteq> [] \<and> filter IsDartFrame (frames thr) = [] \<longrightarrow> HasStack thr)"
  by (simp add: HasStack_def StackFrameIterator_new_def NextFrame_None)

theorem HasStack_any_frame_witness:
  "frames thread_stub_only \<noteq> [] \<and> filter IsDartFrame (frames thread_stub_only) = []
   \<and> HasStack thread_stub_only \<and> \<not> HasStack thread_empty"
proof -
  have a: "frames thread_stub_only \<noteq> [] \<and> filter IsDartFrame (frames thread_stub_only) = []"
    by (simp add: thread_stub_only_def thread_empty_def frame_stub_def)
  have b: "frames thread_empty = []"
    by (simp add: thread_empty_def)
  from HasStack_any_frame [of thread_stub_only] HasStack_any_frame [of thread_empty] a b
  show ?thesis by simp
qed

text \<open>
  C9 as stated fails. A thread whose only frame is not a Dart frame has no managed frame
  in its raw walk, and with assertions checked \<open>AppendFrames\<close> still passes its assertion
  and returns, with nothing collected.
\<close>

theorem assertion_on_managed_frame_counterexample:
  "DEBUG flags_debug \<and> filter IsDartFrame (frames thread_stub_only) = []
   \<and> AppendFrames flags_debug thread_stub_only [] [] 0 = Inr ([], [])
   \<and> GetCurrentStackTrace flags_debug thread_stub_only 0
       = Inr \<lparr>code_array = [], pc_offset_array = []\<rparr>"
  by code_simp

text \<open>
  C9, amended. \<open>AppendFrames\<close> walks the raw frame walker and asserts, before the loop that
  filters, that the walk has a first frame, of any kind: the capture fails exactly when
  assertions are checked and the thread has no frame at all. Otherwise it appends, in
  order, what it records of the managed frames after the skip, the other frames being
  filtered inline. So when the thread has a managed frame, the assertion does not fire and
  \<open>GetCurrentStackTrace\<close> returns the snapshot of those frames.
\<close>

theorem explicit_capture_assertion:
  "((\<exists>e. AppendFrames flags thr code_list pc_offset_list k = Inl e)
      = (DEBUG flags \<and> frames thr = []))
   \<and> (filter IsDartFrame (frames thr) \<noteq> [] \<longrightarrow>
        AppendFrames flags thr code_list pc_offset_list k =
          Inr (code_list @ map frame_code (eligible_frames (frames thr) k),
               pc_offset_list @ map frame_pc_offset (eligible_frames (frames thr) k))
        \<and> GetCurrentStackTrace flags thr k = Inr (snapshot_of (eligible_frames (frames thr) k)))"
  by (auto simp: AppendFrames_eq GetCurrentStackTrace_eq)

theorem explicit_capture_assertion_witness:
  "filter IsDartFrame (frames thread_nested) \<noteq> []
   \<and> AppendFrames flags_debug thread_nested [] [] 1 =
       Inr ([CodeObject code_foo, CodeObject code_main], [0x10, 0x24])
   \<and> GetCurrentStackTrace flags_debug thread_nested 1 = Inr (snapshot_of [frame_foo, frame_main])"
proof -
  have a: "filter IsDartFrame (frames thread_nested) \<noteq> []"
    by code_simp
  have e: "eligible_frames (frames thread_nested) 1 = [frame_foo, frame_main]"
    by code_simp
  have c: "map frame_code [frame_foo, frame_main] = [CodeObject code_foo, CodeObject code_main]
           \<and> map frame_pc_offset [frame_foo, frame_main] = [0x10, 0x24]"
    by code_simp
  from explicit_capture_assertion [of flags_debug thread_nested "[]" "[]" 1] a e c
  show ?thesis by simp
qed

text \<open>
  C10. \<open>CurrentStackTrace\<close> does not use its argument \<open>for_async_function\<close>: with the same
  configuration, thread and skip count, the call with \<open>true\<close> and the call with \<open>false\<close>
  return the same result.
\<close>

theorem for_async_function_unused:
  "CurrentStackTrace flags thr True k = CurrentStackTrace flags thr False k"
  by (simp add: CurrentStackTrace_def)

theorem for_async_function_unused_witness:
  "CurrentStackTrace flags_debug thread_nested True 1 = Inr (snapshot_of [frame_foo, frame_main])"
proof -
  have "CurrentStackTrace flags_debug thread_nested False 1 = Inr (snapshot_of [frame_foo, frame_main])"
    by code_simp
  with for_async_function_unused [of flags_debug thread_nested 1] show ?thesis
    by simp
qed

end
